theory Spec2Isabelle
  imports Main
begin

section \<open>JavaScript strings\<close>

text \<open>
  A JavaScript string is a sequence of UTF-16 code units; \<open>charAt\<close>, \<open>slice\<close>,
  \<open>length\<close> and the offsets of the syntax tree all count code units. A code unit is
  modelled by its number, and \<open>js\<close> turns a literal into its code units.
\<close>

type_synonym code_unit = nat
type_synonym js_string = "code_unit list"

definition js :: "string \<Rightarrow> js_string" where
  "js s = map of_char s"

definition LF :: code_unit where \<comment> \<open>the line feed, \<open>'\\n'\<close>\<close>
  "LF = 10"

definition CR :: code_unit where \<comment> \<open>the carriage return, \<open>'\\r'\<close>\<close>
  "CR = 13"

definition SLASH :: code_unit where \<comment> \<open>\<open>'/'\<close>\<close>
  "SLASH = 47"

definition STAR :: code_unit where \<comment> \<open>\<open>'*'\<close>\<close>
  "STAR = 42"

definition BACKTICK :: code_unit where
  "BACKTICK = 96"

text \<open>\<open>code.charAt(i)\<close>: the empty string out of range, here \<open>None\<close>.\<close>

definition charAt :: "js_string \<Rightarrow> nat \<Rightarrow> code_unit option" where
  "charAt code i = (if i < length code then Some (code ! i) else None)"

text \<open>\<open>code.slice(a, b)\<close> for offsets \<open>a\<close>, \<open>b\<close> that are not negative.\<close>

definition slice :: "js_string \<Rightarrow> nat \<Rightarrow> nat \<Rightarrow> js_string" where
  "slice code a b = take (b - a) (drop a code)"

text \<open>The class \<open>\\s\<close> of a JavaScript regular expression, on one code unit.\<close>

definition is_space :: "code_unit \<Rightarrow> bool" where
  "is_space c \<longleftrightarrow>
     c = 9 \<or> c = 10 \<or> c = 11 \<or> c = 12 \<or> c = 13 \<or> c = 32 \<or> c = 160 \<or> c = 5760 \<or>
     (8192 \<le> c \<and> c \<le> 8202) \<or> c = 8232 \<or> c = 8233 \<or> c = 8239 \<or> c = 8287 \<or>
     c = 12288 \<or> c = 65279"

text \<open>\<open>s.match(/^\\s+/)\<close> is not null: the string starts with white space.\<close>

definition match_leading_space :: "js_string \<Rightarrow> bool" where
  "match_leading_space s = (case s of [] \<Rightarrow> False | c # _ \<Rightarrow> is_space c)"

text \<open>\<open>s.match(/^\\n\\s+/)\<close> is not null: a line feed, then white space.\<close>

definition match_newline_space :: "js_string \<Rightarrow> bool" where
  "match_newline_space s =
     (case s of c # d # _ \<Rightarrow> c = LF \<and> is_space d | _ \<Rightarrow> False)"

section \<open>The comment scanner \<open>parseMaybeComments\<close>\<close>

datatype comment_state = NONE | SINGLE | MULTI

text \<open>A comment span \<open>{start, end}\<close>.\<close>

type_synonym span = "nat \<times> nat"

text \<open>The variables of the scanner: \<open>i\<close>, \<open>type\<close>, \<open>commentStart\<close>, \<open>lineStart\<close>, \<open>out\<close>.\<close>

record scan_state =
  st_i :: nat
  st_type :: comment_state
  st_commentStart :: nat
  st_lineStart :: nat
  st_out :: "span list"

text \<open>
  Lines 236 to 241 and 253 to 258: the start of the span that is about to be pushed,
  pulled back to just after \<open>lineStart\<close> when the text from \<open>lineStart\<close> to the
  comment matches.
\<close>

definition single_start :: "js_string \<Rightarrow> nat \<Rightarrow> nat \<Rightarrow> nat" where
  "single_start code lineStart commentStart =
     (if lineStart < commentStart \<and> match_leading_space (slice code lineStart commentStart)
      then lineStart + 1 else commentStart)"

definition multi_start :: "js_string \<Rightarrow> nat \<Rightarrow> nat \<Rightarrow> nat" where
  "multi_start code lineStart commentStart =
     (if lineStart < commentStart \<and> match_newline_space (slice code lineStart commentStart)
      then lineStart + 1 else commentStart)"

text \<open>Lines 260 to 262: the end of a block comment whose \<open>*\<close> is at \<open>i\<close>.\<close>

definition multi_end :: "js_string \<Rightarrow> nat \<Rightarrow> nat" where
  "multi_end code i =
     (if charAt code (i + 2) = Some LF \<or> charAt code (i + 2) = Some CR then i + 3 else i + 2)"

text \<open>How one round of the loop body is left: by \<open>break\<close>, or at its end (also by \<open>continue\<close>).\<close>

datatype 'a flow = Break 'a | Next 'a

text \<open>
  The body of the \<open>for\<close> loop, lines 232 to 285, run with \<open>st_i st < length code\<close>.
  It returns the variables as the body leaves them; the loop's own \<open>i++\<close> is in
  \<open>scan_loop\<close>.
\<close>

definition loop_body :: "js_string \<Rightarrow> scan_state \<Rightarrow> scan_state flow" where
  "loop_body code st =
     (if st_type st = SINGLE then
        (if code ! st_i st = LF \<or> code ! st_i st = CR then
           Next \<lparr>st_i = st_i st + 1, st_type = NONE,
             st_commentStart = single_start code (st_lineStart st) (st_commentStart st),
             st_lineStart = st_i st,
             st_out = st_out st @
               [(single_start code (st_lineStart st) (st_commentStart st), st_i st + 1)]\<rparr>
         else Next st)
      else if st_type st = MULTI then
        (if code ! st_i st = STAR \<and> charAt code (st_i st + 1) = Some SLASH then
           Next \<lparr>st_i = multi_end code (st_i st), st_type = NONE,
             st_commentStart = multi_start code (st_lineStart st) (st_commentStart st),
             st_lineStart = st_lineStart st,
             st_out = st_out st @
               [(multi_start code (st_lineStart st) (st_commentStart st),
                 multi_end code (st_i st))]\<rparr>
         else Next st)
      else if code ! st_i st = SLASH then
        (if charAt code (st_i st + 1) = Some SLASH then
           Next (st\<lparr>st_type := SINGLE, st_commentStart := st_i st, st_i := st_i st + 1\<rparr>)
         else if charAt code (st_i st + 1) = Some STAR then
           Next (st\<lparr>st_commentStart := st_i st, st_type := MULTI, st_i := st_i st + 1\<rparr>)
         else Next st)
      else if code ! st_i st = LF then
        Next (st\<lparr>st_lineStart := st_i st\<rparr>)
      else if is_space (code ! st_i st) then
        Next (st\<lparr>st_commentStart := st_commentStart st + 1\<rparr>)
      else Break st)"

lemma loop_body_advances:
  "loop_body code st = Next st' \<Longrightarrow> st_i st \<le> st_i st'"
  by (auto simp: loop_body_def multi_end_def split: if_splits)

text \<open>The \<open>for\<close> loop of lines 231 to 286: the test, the body, \<open>i++\<close>.\<close>

function scan_loop :: "js_string \<Rightarrow> scan_state \<Rightarrow> scan_state" where
  "scan_loop code st =
     (if st_i st < length code then
        (case loop_body code st of
           Break st' \<Rightarrow> st'
         | Next st' \<Rightarrow> scan_loop code (st'\<lparr>st_i := st_i st' + 1\<rparr>))
      else st)"
  by pat_completeness auto
termination
proof (relation "measure (\<lambda>(code, st). length code - st_i st)")
  show "wf (measure (\<lambda>(code, st). length code - st_i st))"
    by simp
next
  fix code :: js_string and st st' :: scan_state
  assume "st_i st < length code" and "loop_body code st = Next st'"
  then show "((code, st'\<lparr>st_i := st_i st' + 1\<rparr>), (code, st))
      \<in> measure (\<lambda>(code, st). length code - st_i st)"
    using loop_body_advances [of code st st'] by simp
qed

text \<open>
  Lines 219 to 289. The offset \<open>start\<close> is an offset of the tree: it is not negative.
  \<open>scan_end\<close> is the variables when the loop is left, and the function returns \<open>out\<close>.
\<close>

definition scan_end :: "js_string \<Rightarrow> nat \<Rightarrow> scan_state" where
  "scan_end code start =
     scan_loop code
       \<lparr>st_i = start, st_type = NONE, st_commentStart = 0, st_lineStart = start, st_out = []\<rparr>"

definition parseMaybeComments :: "js_string \<Rightarrow> nat \<Rightarrow> span list" where
  "parseMaybeComments code start = st_out (scan_end code start)"

section \<open>The syntax tree, the options and the edits\<close>

text \<open>
  The parser, the traversal and the splice buffer are collaborators of the transform,
  defined elsewhere. The model keeps of a node what the visitor reads: its offsets and the
  fields named below. Every node has \<open>start\<close> and \<open>end\<close>.
\<close>

record node =
  node_start :: nat
  node_end :: nat

text \<open>The name of a tag: \<open>a\<close>, \<open>A.b\<close> or \<open>a:b\<close>.\<close>

datatype jsx_name =
    JSXIdentifier js_string
  | JSXMemberExpression jsx_name js_string
  | JSXNamespacedName js_string js_string

record jsx_name_node = node +
  name_node :: jsx_name

record jsx_opening_element = node +
  name :: jsx_name_node
  attributes :: "node list"
  selfClosing :: bool

record jsx_closing_element = node +
  closing_name :: jsx_name

datatype comment_type = Line | Block

record comment = node +
  comment_type :: comment_type

record jsx_text = node +
  text_value :: js_string

text \<open>
  A JSX expression container, with whether its expression is a \<open>JSXEmptyExpression\<close>;
  a JSX spread attribute, with its argument.
\<close>

record jsx_expression_container = node +
  expression_is_empty :: bool

record jsx_spread_attribute = node +
  argument :: node

text \<open>
  What \<open>isRootElement\<close> reads of a path: the node \<open>path.parentPath.parent\<close>, which is
  the parent of the JSX element or fragment whose tag the path is at, or null. Of that
  node only the type matters.
\<close>

datatype node_type = JSXElement | JSXFragment | OtherNode

record 'n path =
  path_node :: 'n
  parentPath_parent :: "node_type option"

definition path_span :: "'m node_scheme path \<Rightarrow> span" where
  "path_span p = (node_start (path_node p), node_end (path_node p))"

text \<open>The source text \<open>path.ctx.out.original\<close> and the comments \<open>path.hub.file.ast.comments\<close>.\<close>

record source_file =
  original :: js_string
  comments :: "comment list"

text \<open>The traversal's state: \<open>state.jsx\<close>, not set before the first opening element.\<close>

record state =
  jsx :: bool

text \<open>
  The options, as their documented type has them: \<open>tag\<close> a string or absent,
  \<open>terse\<close> a boolean, \<open>import\<close> a string, \<open>false\<close> (or absent), or an object
  whose \<open>module\<close> and \<open>export\<close> are each a string or absent.
\<close>

datatype import_option =
    ImportFalse
  | ImportModule js_string
  | ImportObject "js_string option" "js_string option"

record options =
  opt_tag :: "js_string option"
  opt_terse :: bool
  opt_import :: import_option

text \<open>The values that the visitor turns into text.\<close>

datatype js_value = Undefined | Str js_string | Object

fun to_string :: "js_value \<Rightarrow> js_string" where
  "to_string Undefined = js ''undefined''"
| "to_string (Str s) = s"
| "to_string Object = js ''[object Object]''"

text \<open>
  The edits, as the visitor issues them: the methods of a path, named by the span of
  the path's node, and the methods of the splice buffer \<open>path.ctx.out\<close>, by offset.
\<close>

datatype edit =
    PrependString span js_string
  | AppendString span js_string
  | ReplaceWithString span js_string
  | ReplaceWith span span
  | RemovePath span
  | BodyPrependString js_string
  | Overwrite int int js_string
  | AppendRight int js_string
  | Remove int int

section \<open>The visitor of \<open>transformJsxToHtmLite\<close>\<close>

text \<open>
  Lines 15 to 40. The function validates nothing and has no \<open>throw\<close>: it computes
  \<open>tagString\<close> and \<open>tagImport\<close> and returns the plugin. The handlers are closures over
  these and over \<open>options.terse\<close>; the model passes them the plugin.
\<close>

datatype 'a outcome = Throws js_string | Returns 'a

record plugin =
  plugin_name :: js_string
  tagString :: js_string
  tagImport :: import_option
  terse :: bool

text \<open>\<open>options.tag || 'html'\<close> and \<open>options.import || false\<close>: the empty string is falsy.\<close>

definition transformJsxToHtmLite :: "options \<Rightarrow> plugin outcome" where
  "transformJsxToHtmLite options =
     Returns \<lparr>plugin_name = js ''transform-jsx-to-htm-lite'',
       tagString = (case opt_tag options of
                      None \<Rightarrow> js ''html''
                    | Some t \<Rightarrow> if t = [] then js ''html'' else t),
       tagImport = (case opt_import options of
                      ImportModule m \<Rightarrow> if m = [] then ImportFalse else ImportModule m
                    | other \<Rightarrow> other),
       terse = opt_terse options\<rparr>"

text \<open>
  Lines 16 to 25. The test is \<open>/(^[A-Z]|[.$])/\<close>: \<open>A\<close> to \<open>Z\<close> are the code units
  65 to 90, the dot is 46 and the dollar sign is 36.
\<close>

fun isIdent :: "jsx_name \<Rightarrow> bool" where
  "isIdent (JSXIdentifier n) =
     ((case n of [] \<Rightarrow> False | c # _ \<Rightarrow> 65 \<le> c \<and> c \<le> 90) \<or> 46 \<in> set n \<or> 36 \<in> set n)"
| "isIdent (JSXMemberExpression obj property) = True"
| "isIdent (JSXNamespacedName ns n) = False"

text \<open>Line 26.\<close>

definition isRootElement :: "'n path \<Rightarrow> bool" where
  "isRootElement p \<longleftrightarrow>
     parentPath_parent p \<noteq> Some JSXElement \<and> parentPath_parent p \<noteq> Some JSXFragment"

text \<open>
  Lines 30 to 36. \<open>ifEnd\<close> is \<open>None\<close> for the default \<open>Infinity\<close>. The offset
  \<open>comment.end - 2\<close> is an integer, as in the source.
\<close>

definition commentToHtml :: "comment \<Rightarrow> nat \<Rightarrow> nat option \<Rightarrow> edit list" where
  "commentToHtml c ifStart ifEnd =
     (if ifStart \<le> node_start c \<and> (case ifEnd of None \<Rightarrow> True | Some e \<Rightarrow> node_end c \<le> e) then
        Overwrite (int (node_start c)) (int (node_start c) + 2) (js ''<!--'') #
        (if comment_type c = Block
         then [Overwrite (int (node_end c) - 2) (int (node_end c)) (js ''-->'')]
         else [AppendRight (int (node_end c)) (js ''-->'')])
      else [])"

text \<open>
  Lines 43 to 49. \<open>lib\<close> is \<open>tagImport.module\<close> when \<open>tagImport\<close> is an object, which is
  undefined when the object has none; an empty \<open>export\<close> is falsy. The single quote
  is the code unit 39.
\<close>

definition Program_exit :: "plugin \<Rightarrow> state \<Rightarrow> edit list" where
  "Program_exit pl st =
     (if jsx st \<and> tagImport pl \<noteq> ImportFalse then
        (let lib = (case tagImport pl of
                      ImportModule m \<Rightarrow> Str m
                    | ImportObject (Some m) e \<Rightarrow> Str m
                    | _ \<Rightarrow> Undefined);
             imp = (case tagImport pl of
                      ImportObject m (Some e) \<Rightarrow> if e = [] then tagString pl else e
                    | _ \<Rightarrow> tagString pl);
             imp' = (if tagString pl \<noteq> imp then imp @ js '' as '' @ tagString pl else imp)
         in [BodyPrependString
               (js ''import { '' @ imp' @ js '' } from '' @ [39] @ to_string lib @ [39] @
                js '';\<newline>'')])
      else [])"

text \<open>
  Lines 90 to 104: the comments from the end of the name to the first attribute, from
  each attribute to the next, and after the last attribute are removed. \<open>i\<close> is the
  offset the next scan starts at.
\<close>

definition remove_comments :: "js_string \<Rightarrow> nat \<Rightarrow> edit list" where
  "remove_comments code i =
     map (\<lambda>comment. Remove (int (fst comment)) (int (snd comment))) (parseMaybeComments code i)"

fun remove_between :: "js_string \<Rightarrow> nat \<Rightarrow> node list \<Rightarrow> edit list" where
  "remove_between code i [] = remove_comments code i"
| "remove_between code i (attr # attrs) =
     remove_comments code i @ remove_between code (node_end attr) attrs"

text \<open>Lines 116 to 130.\<close>

definition comments_to_html :: "source_file \<Rightarrow> jsx_opening_element \<Rightarrow> edit list" where
  "comments_to_html f n =
     concat (map (\<lambda>c.
        if node_end (name n) \<le> node_start c \<and> node_end c < node_end n then
          (if list_ex (\<lambda>attr. node_start attr \<le> node_start c \<and> node_end c \<le> node_end attr)
                (attributes n)
           then [] else commentToHtml c 0 None)
        else [])
       (comments f))"

text \<open>Lines 60 to 131.\<close>

definition JSXOpeningElement ::
  "plugin \<Rightarrow> source_file \<Rightarrow> jsx_opening_element path \<Rightarrow> state \<Rightarrow> state \<times> edit list" where
  "JSXOpeningElement pl f p st =
     (let n = path_node p;
          name_span = (node_start (name n), node_end (name n))
      in (st\<lparr>jsx := True\<rparr>,
          (if isIdent (name_node (name n))
           then [PrependString name_span (js ''${''), AppendString name_span (js ''}'')]
           else []) @
          (if attributes n \<noteq> []
           then remove_between (original f) (node_end (name n)) (attributes n)
           else []) @
          (if isRootElement p
           then PrependString (path_span p) (tagString pl @ [BACKTICK]) #
                (if selfClosing n then [AppendString (path_span p) [BACKTICK]] else [])
           else []) @
          comments_to_html f n))"

text \<open>
  Lines 132 to 149. \<open>path.node.name.name\<close> is the identifier's string; a member
  expression has no \<open>name\<close>, and the \<open>name\<close> of a namespaced name is a node.
\<close>

fun name_property :: "jsx_name \<Rightarrow> js_value" where
  "name_property (JSXIdentifier n) = Str n"
| "name_property (JSXMemberExpression obj property) = Undefined"
| "name_property (JSXNamespacedName ns n) = Object"

definition closing_string :: "plugin \<Rightarrow> jsx_name \<Rightarrow> js_string" where
  "closing_string pl nm =
     (let name = (if isIdent nm
                  then (if terse pl then js ''/''
                        else js ''${'' @ to_string (name_property nm) @ js ''}'')
                  else to_string (name_property nm))
      in js ''</'' @ name @ js ''>'')"

definition JSXClosingElement :: "plugin \<Rightarrow> jsx_closing_element path \<Rightarrow> edit list" where
  "JSXClosingElement pl p =
     [ReplaceWithString (path_span p)
        (closing_string pl (closing_name (path_node p)) @
         (if isRootElement p then [BACKTICK] else []))]"

text \<open>Lines 158 to 169.\<close>

definition JSXOpeningFragment :: "plugin \<Rightarrow> node path \<Rightarrow> edit list" where
  "JSXOpeningFragment pl p =
     (if \<not> isRootElement p then [RemovePath (path_span p)]
      else [ReplaceWithString (path_span p) (tagString pl @ [BACKTICK])])"

definition JSXClosingFragment :: "plugin \<Rightarrow> node path \<Rightarrow> edit list" where
  "JSXClosingFragment pl p =
     (if \<not> isRootElement p then [RemovePath (path_span p)]
      else [ReplaceWithString (path_span p) [BACKTICK]])"

text \<open>Lines 181 to 185.\<close>

definition JSXSpreadAttribute :: "jsx_spread_attribute path \<Rightarrow> edit list" where
  "JSXSpreadAttribute p =
     [ReplaceWith (path_span p)
        (node_start (argument (path_node p)), node_end (argument (path_node p))),
      PrependString (path_span p) (js ''...${''),
      AppendString (path_span p) (js ''}'')]"

text \<open>
  Lines 189 to 196. The test is \<open>/[<>&"]/\<close>: the code units 60, 62, 38 and 34.
\<close>

fun test_special :: "js_string \<Rightarrow> bool" where
  "test_special [] = False"
| "test_special (c # cs) = (c = 60 \<or> c = 62 \<or> c = 38 \<or> c = 34 \<or> test_special cs)"

definition JSXText :: "jsx_text path \<Rightarrow> edit list" where
  "JSXText p =
     (let text = text_value (path_node p)
      in if test_special text
         then [ReplaceWithString (path_span p) (js ''${'' @ [BACKTICK] @ text @ [BACKTICK] @ js ''}'')]
         else [ReplaceWithString (path_span p) text])"

text \<open>Lines 202 to 208.\<close>

definition JSXExpressionContainer :: "jsx_expression_container path \<Rightarrow> edit list" where
  "JSXExpressionContainer p =
     (if expression_is_empty (path_node p) then [RemovePath (path_span p)]
      else [PrependString (path_span p) (js ''$'')])"

section \<open>The traversal\<close>

text \<open>
  Modelled from the spec: the traversal harness, which is not part of this module. It
  walks the tree once, depth first, and calls the handler of each node's kind with the
  node's path; nodes of other kinds are not visited; \<open>Program.exit\<close> runs last. The
  model takes the visits in the order the harness makes them.
\<close>

datatype visit =
    Visit_JSXOpeningElement "jsx_opening_element path"
  | Visit_JSXClosingElement "jsx_closing_element path"
  | Visit_JSXOpeningFragment "node path"
  | Visit_JSXClosingFragment "node path"
  | Visit_JSXSpreadAttribute "jsx_spread_attribute path"
  | Visit_JSXText "jsx_text path"
  | Visit_JSXExpressionContainer "jsx_expression_container path"

fun visit_node :: "plugin \<Rightarrow> source_file \<Rightarrow> visit \<Rightarrow> state \<Rightarrow> state \<times> edit list" where
  "visit_node pl f (Visit_JSXOpeningElement p) st = JSXOpeningElement pl f p st"
| "visit_node pl f (Visit_JSXClosingElement p) st = (st, JSXClosingElement pl p)"
| "visit_node pl f (Visit_JSXOpeningFragment p) st = (st, JSXOpeningFragment pl p)"
| "visit_node pl f (Visit_JSXClosingFragment p) st = (st, JSXClosingFragment pl p)"
| "visit_node pl f (Visit_JSXSpreadAttribute p) st = (st, JSXSpreadAttribute p)"
| "visit_node pl f (Visit_JSXText p) st = (st, JSXText p)"
| "visit_node pl f (Visit_JSXExpressionContainer p) st = (st, JSXExpressionContainer p)"

fun traverse :: "plugin \<Rightarrow> source_file \<Rightarrow> visit list \<Rightarrow> state \<Rightarrow> state \<times> edit list" where
  "traverse pl f [] st = (st, [])"
| "traverse pl f (v # vs) st =
     (case visit_node pl f v st of
        (st', es) \<Rightarrow> (case traverse pl f vs st' of (st'', es') \<Rightarrow> (st'', es @ es')))"

text \<open>The whole transform of one file: the edits in the order they are issued.\<close>

definition transform :: "options \<Rightarrow> source_file \<Rightarrow> visit list \<Rightarrow> edit list outcome" where
  "transform options f visits =
     (case transformJsxToHtmLite options of
        Throws e \<Rightarrow> Throws e
      | Returns pl \<Rightarrow>
          (case traverse pl f visits \<lparr>jsx = False\<rparr> of
             (st, es) \<Rightarrow> Returns (es @ Program_exit pl st)))"

fun is_opening_element :: "visit \<Rightarrow> bool" where
  "is_opening_element (Visit_JSXOpeningElement p) = True"
| "is_opening_element v = False"

text \<open>
  Modelled from the spec: a JSX element of the tree, of which the traversal visits the
  opening element and, when there is one, the closing element. Both are children of
  the element, so \<open>path.parentPath.parent\<close> is the same node for both: the element's
  parent. A fragment has an opening and a closing fragment in the same way.
\<close>

definition element_tags ::
  "node_type option \<Rightarrow> jsx_opening_element \<Rightarrow> jsx_closing_element option \<Rightarrow> visit list" where
  "element_tags parent opening closing =
     Visit_JSXOpeningElement \<lparr>path_node = opening, parentPath_parent = parent\<rparr> #
     (case closing of
        None \<Rightarrow> []
      | Some c \<Rightarrow> [Visit_JSXClosingElement \<lparr>path_node = c, parentPath_parent = parent\<rparr>])"

definition fragment_tags :: "node_type option \<Rightarrow> node \<Rightarrow> node \<Rightarrow> visit list" where
  "fragment_tags parent opening closing =
     [Visit_JSXOpeningFragment \<lparr>path_node = opening, parentPath_parent = parent\<rparr>,
      Visit_JSXClosingFragment \<lparr>path_node = closing, parentPath_parent = parent\<rparr>]"

text \<open>The text an edit inserts, and whether that text ends with a backtick.\<close>

fun inserted_text :: "edit \<Rightarrow> js_string" where
  "inserted_text (PrependString sp s) = s"
| "inserted_text (AppendString sp s) = s"
| "inserted_text (ReplaceWithString sp s) = s"
| "inserted_text (ReplaceWith sp sp') = []"
| "inserted_text (RemovePath sp) = []"
| "inserted_text (BodyPrependString s) = s"
| "inserted_text (Overwrite a b s) = s"
| "inserted_text (AppendRight a s) = s"
| "inserted_text (Remove a b) = []"

definition ends_with_backtick :: "edit \<Rightarrow> bool" where
  "ends_with_backtick e \<longleftrightarrow> inserted_text e \<noteq> [] \<and> last (inserted_text e) = BACKTICK"

section \<open>Well-formed spans\<close>

text \<open>
  A span ends where a comment is closed: after a line feed or a carriage return (the
  end of a line comment, or the line end taken in after a block comment), or after the
  \<open>*/\<close> of a block comment.
\<close>

definition terminated :: "js_string \<Rightarrow> span \<Rightarrow> bool" where
  "terminated code sp \<longleftrightarrow>
     0 < snd sp \<and> snd sp \<le> length code \<and>
     (code ! (snd sp - 1) = LF \<or> code ! (snd sp - 1) = CR \<or>
      (2 \<le> snd sp \<and> code ! (snd sp - 2) = STAR \<and> code ! (snd sp - 1) = SLASH))"

text \<open>
  The spans pushed so far: each starts at or after \<open>start\<close>, is not empty, ends at or
  before \<open>bound\<close> where a comment is closed, and the ends increase strictly.
\<close>

definition spans_ok :: "js_string \<Rightarrow> nat \<Rightarrow> nat \<Rightarrow> span list \<Rightarrow> bool" where
  "spans_ok code start bound out \<longleftrightarrow>
     (\<forall>sp \<in> set out.
        start \<le> fst sp \<and> fst sp < snd sp \<and> snd sp \<le> bound \<and> terminated code sp) \<and>
     sorted_wrt (<) (map snd out)"

text \<open>
  The invariant of the loop, at the loop test. Inside a comment, \<open>commentStart\<close> is
  the offset of the comment's \<open>/\<close>, and every span pushed so far ends at or before it.
\<close>

definition scan_inv :: "js_string \<Rightarrow> nat \<Rightarrow> scan_state \<Rightarrow> bool" where
  "scan_inv code start st \<longleftrightarrow>
     start \<le> st_i st \<and> start \<le> st_lineStart st \<and>
     (if st_type st = NONE then spans_ok code start (st_i st) (st_out st)
      else start \<le> st_commentStart st \<and> st_commentStart st < st_i st \<and>
           st_commentStart st < length code \<and> code ! st_commentStart st = SLASH \<and>
           charAt code (st_commentStart st + 1) =
             Some (if st_type st = SINGLE then SLASH else STAR) \<and>
           spans_ok code start (st_commentStart st) (st_out st))"

section \<open>Evaluation\<close>

declare scan_loop.simps [simp del]

lemmas scanner_defs =
  parseMaybeComments_def scan_end_def scan_loop.simps js_def LF_def CR_def SLASH_def STAR_def charAt_def
  single_start_def multi_start_def multi_end_def loop_body_def is_space_def
  match_leading_space_def match_newline_space_def slice_def

lemmas visitor_defs =
  transform_def transformJsxToHtmLite_def Program_exit_def JSXOpeningElement_def
  JSXClosingElement_def JSXOpeningFragment_def JSXClosingFragment_def JSXText_def
  JSXSpreadAttribute_def JSXExpressionContainer_def closing_string_def isRootElement_def
  path_span_def comments_to_html_def commentToHtml_def remove_comments_def BACKTICK_def

section \<open>Text nodes\<close>

lemma test_special_iff: "test_special t \<longleftrightarrow> set t \<inter> {60, 62, 38, 34} \<noteq> {}"
  by (induction t) auto

lemma js_special: "set (js ''<>&\"'') = {60, 62, 38, 34}"
  by (simp add: js_def)

text \<open>
  C5. The handler of a text node replaces the node by one string. The string is the
  template substitution that holds the text between backticks when the text has one of
  the characters \<open><\<close>, \<open>>\<close>, \<open>&\<close>, \<open>"\<close>, and then it differs from the text; it is
  the text itself when the text has none of them.
\<close>

theorem JSXText_wraps_iff_special:
  "JSXText p =
     [ReplaceWithString (path_span p)
        (if set (text_value (path_node p)) \<inter> set (js ''<>&\"'') \<noteq> {}
         then js ''${'' @ [BACKTICK] @ text_value (path_node p) @ [BACKTICK] @ js ''}''
         else text_value (path_node p))]
   \<and> js ''${'' @ [BACKTICK] @ text_value (path_node p) @ [BACKTICK] @ js ''}''
       \<noteq> text_value (path_node p)"
proof -
  have "length (js ''${'' @ [BACKTICK] @ text_value (path_node p) @ [BACKTICK] @ js ''}'')
      \<noteq> length (text_value (path_node p))"
    by (simp add: js_def)
  then have "js ''${'' @ [BACKTICK] @ text_value (path_node p) @ [BACKTICK] @ js ''}''
      \<noteq> text_value (path_node p)"
    by metis
  then show ?thesis
    by (simp add: JSXText_def Let_def test_special_iff js_special)
qed

theorem JSXText_wraps_iff_special_witness:
  "JSXText \<lparr>path_node = \<lparr>node_start = 5, node_end = 10, text_value = js ''a < b''\<rparr>,
            parentPath_parent = Some OtherNode\<rparr>
     = [ReplaceWithString (5, 10) (js ''${'' @ [BACKTICK] @ js ''a < b'' @ [BACKTICK] @ js ''}'')]
   \<and> JSXText \<lparr>path_node = \<lparr>node_start = 5, node_end = 8, text_value = js ''a b''\<rparr>,
            parentPath_parent = Some OtherNode\<rparr>
     = [ReplaceWithString (5, 8) (js ''a b'')]"
  using JSXText_wraps_iff_special
    [of "\<lparr>path_node = \<lparr>node_start = 5, node_end = 10, text_value = js ''a < b''\<rparr>,
          parentPath_parent = Some OtherNode\<rparr>"]
    JSXText_wraps_iff_special
    [of "\<lparr>path_node = \<lparr>node_start = 5, node_end = 8, text_value = js ''a b''\<rparr>,
          parentPath_parent = Some OtherNode\<rparr>"]
  by (simp add: js_def path_span_def)

section \<open>Root delimiters\<close>

lemma remove_comments_no_backtick: "filter ends_with_backtick (remove_comments code i) = []"
  by (simp add: remove_comments_def ends_with_backtick_def filter_empty_conv)

lemma remove_between_no_backtick: "filter ends_with_backtick (remove_between code i attrs) = []"
  by (induction attrs arbitrary: i) (simp_all add: remove_comments_no_backtick)

lemma commentToHtml_no_backtick: "filter ends_with_backtick (commentToHtml c a b) = []"
  by (simp add: commentToHtml_def ends_with_backtick_def js_def BACKTICK_def)

lemma comments_to_html_no_backtick: "filter ends_with_backtick (comments_to_html f n) = []"
  by (simp add: comments_to_html_def filter_concat commentToHtml_no_backtick)

lemma closing_string_last: "last (closing_string pl nm) = 62"
  by (simp add: closing_string_def Let_def js_def)

lemma opening_element_backticks:
  "filter ends_with_backtick (snd (JSXOpeningElement pl f p st)) =
     (if isRootElement p
      then PrependString (path_span p) (tagString pl @ [BACKTICK]) #
           (if selfClosing (path_node p) then [AppendString (path_span p) [BACKTICK]] else [])
      else [])"
  by (simp add: JSXOpeningElement_def Let_def remove_between_no_backtick
      comments_to_html_no_backtick)
     (simp add: ends_with_backtick_def js_def BACKTICK_def)

lemma closing_element_backticks:
  "filter ends_with_backtick (JSXClosingElement pl p) =
     (if isRootElement p
      then [ReplaceWithString (path_span p)
              (closing_string pl (closing_name (path_node p)) @ [BACKTICK])]
      else [])"
  using closing_string_last [of pl "closing_name (path_node p)"]
  by (simp add: JSXClosingElement_def ends_with_backtick_def BACKTICK_def)

text \<open>
  C1. The tags of a JSX element whose parent is neither a JSX element nor a JSX
  fragment get exactly two edits that end with a backtick: the tag name and a backtick
  prepended to the opening element, and then a backtick appended to the opening
  element when the element is self-closing, or else the closing element replaced by its
  string followed by a backtick. The tags of a root fragment are replaced by the tag
  name with a backtick and by a backtick. The tags of an element or fragment whose
  parent is a JSX element or fragment get no edit that ends with a backtick. The parser
  gives a closing element to exactly the elements that are not self-closing.
\<close>

theorem root_delimiters:
  assumes "selfClosing opening \<longleftrightarrow> closing = None"
  shows "filter ends_with_backtick
           (snd (traverse pl f (element_tags parent opening closing) st)) =
         (if parent \<noteq> Some JSXElement \<and> parent \<noteq> Some JSXFragment
          then [PrependString (node_start opening, node_end opening) (tagString pl @ [BACKTICK]),
                (case closing of
                   None \<Rightarrow> AppendString (node_start opening, node_end opening) [BACKTICK]
                 | Some c \<Rightarrow> ReplaceWithString (node_start c, node_end c)
                     (closing_string pl (closing_name c) @ [BACKTICK]))]
          else [])
       \<and> filter ends_with_backtick
           (snd (traverse pl f (fragment_tags parent fopen fclose) st)) =
         (if parent \<noteq> Some JSXElement \<and> parent \<noteq> Some JSXFragment
          then [ReplaceWithString (node_start fopen, node_end fopen) (tagString pl @ [BACKTICK]),
                ReplaceWithString (node_start fclose, node_end fclose) [BACKTICK]]
          else [])"
proof
  let ?p = "\<lparr>path_node = opening, parentPath_parent = parent\<rparr>"
  obtain st' es where o: "JSXOpeningElement pl f ?p st = (st', es)"
    by (cases "JSXOpeningElement pl f ?p st")
  have es: "filter ends_with_backtick es =
     (if isRootElement ?p
      then PrependString (path_span ?p) (tagString pl @ [BACKTICK]) #
           (if selfClosing opening then [AppendString (path_span ?p) [BACKTICK]] else [])
      else [])"
    using opening_element_backticks [of pl f ?p st] o by simp
  show "filter ends_with_backtick
           (snd (traverse pl f (element_tags parent opening closing) st)) =
         (if parent \<noteq> Some JSXElement \<and> parent \<noteq> Some JSXFragment
          then [PrependString (node_start opening, node_end opening) (tagString pl @ [BACKTICK]),
                (case closing of
                   None \<Rightarrow> AppendString (node_start opening, node_end opening) [BACKTICK]
                 | Some c \<Rightarrow> ReplaceWithString (node_start c, node_end c)
                     (closing_string pl (closing_name c) @ [BACKTICK]))]
          else [])"
  proof (cases closing)
    case None
    with assms o es show ?thesis
      by (simp add: element_tags_def isRootElement_def path_span_def)
  next
    case (Some c)
    with assms o es closing_element_backticks [of pl "\<lparr>path_node = c, parentPath_parent = parent\<rparr>"]
    show ?thesis
      by (simp add: element_tags_def isRootElement_def path_span_def)
  qed
next
  show "filter ends_with_backtick
           (snd (traverse pl f (fragment_tags parent fopen fclose) st)) =
         (if parent \<noteq> Some JSXElement \<and> parent \<noteq> Some JSXFragment
          then [ReplaceWithString (node_start fopen, node_end fopen) (tagString pl @ [BACKTICK]),
                ReplaceWithString (node_start fclose, node_end fclose) [BACKTICK]]
          else [])"
    by (simp add: fragment_tags_def JSXOpeningFragment_def JSXClosingFragment_def
        isRootElement_def path_span_def ends_with_backtick_def)
qed

theorem root_delimiters_witness:
  "filter ends_with_backtick
     (snd (traverse
        \<lparr>plugin_name = js ''transform-jsx-to-htm-lite'', tagString = js ''html'',
         tagImport = ImportFalse, terse = False\<rparr>
        \<lparr>original = js ''<a></a>'', comments = []\<rparr>
        (element_tags (Some OtherNode)
           \<lparr>node_start = 0, node_end = 3,
            name = \<lparr>node_start = 1, node_end = 2, name_node = JSXIdentifier (js ''a'')\<rparr>,
            attributes = [], selfClosing = False\<rparr>
           (Some \<lparr>node_start = 3, node_end = 7, closing_name = JSXIdentifier (js ''a'')\<rparr>))
        \<lparr>jsx = False\<rparr>))
   = [PrependString (0, 3) (js ''html'' @ [BACKTICK]),
      ReplaceWithString (3, 7) (js ''</a>'' @ [BACKTICK])]
   \<and> filter ends_with_backtick
     (snd (traverse
        \<lparr>plugin_name = js ''transform-jsx-to-htm-lite'', tagString = js ''html'',
         tagImport = ImportFalse, terse = False\<rparr>
        \<lparr>original = js ''<b><a/></b>'', comments = []\<rparr>
        (element_tags (Some JSXElement)
           \<lparr>node_start = 3, node_end = 7,
            name = \<lparr>node_start = 4, node_end = 5, name_node = JSXIdentifier (js ''a'')\<rparr>,
            attributes = [], selfClosing = True\<rparr>
           None)
        \<lparr>jsx = False\<rparr>))
   = []"
  using root_delimiters
    [of "\<lparr>node_start = 0, node_end = 3,
          name = \<lparr>node_start = 1, node_end = 2, name_node = JSXIdentifier (js ''a'')\<rparr>,
          attributes = [], selfClosing = False\<rparr>"
        "Some \<lparr>node_start = 3, node_end = 7, closing_name = JSXIdentifier (js ''a'')\<rparr>"
        "\<lparr>plugin_name = js ''transform-jsx-to-htm-lite'', tagString = js ''html'',
          tagImport = ImportFalse, terse = False\<rparr>"
        "\<lparr>original = js ''<a></a>'', comments = []\<rparr>"
        "Some OtherNode" "\<lparr>jsx = False\<rparr>"]
    root_delimiters
    [of "\<lparr>node_start = 3, node_end = 7,
          name = \<lparr>node_start = 4, node_end = 5, name_node = JSXIdentifier (js ''a'')\<rparr>,
          attributes = [], selfClosing = True\<rparr>"
        None
        "\<lparr>plugin_name = js ''transform-jsx-to-htm-lite'', tagString = js ''html'',
          tagImport = ImportFalse, terse = False\<rparr>"
        "\<lparr>original = js ''<b><a/></b>'', comments = []\<rparr>"
        "Some JSXElement" "\<lparr>jsx = False\<rparr>"]
  by (simp add: closing_string_def js_def)

section \<open>Sibling comments\<close>

text \<open>
  C2. In \<open><div\<close>, line feed, \<open>//a\<close>, line feed, \<open>//b\<close>, line feed, \<open>id="x"/>\<close> the scan
  starts at the end of the name, offset 4. The span of the first comment ends at offset
  9, just after its line feed, where the second comment starts. The loop body sets \<open>i\<close>
  to 9 and the loop then increments it, so the scan goes on at offset 10: it reads the
  second \<open>/\<close> of \<open>//b\<close> followed by \<open>b\<close>, and stops at \<open>b\<close>. The second comment is
  not in the list.
\<close>

theorem sibling_line_comment_missed:
  "parseMaybeComments (js ''<div\<newline>//a\<newline>//b\<newline>id=\"x\"/>'') 4 = [(5, 9)]"
  by (simp add: scanner_defs)

section \<open>Closing tags of components\<close>

text \<open>
  C6. The closing tag \<open></Ctx.Provider>\<close> of a nested component, without the terse
  option: its name is a member expression, which has no \<open>name\<close> property, and the
  node is replaced by the string built from \<open>undefined\<close>.
\<close>

theorem member_closing_tag_undefined:
  "JSXClosingElement \<lparr>plugin_name = js ''transform-jsx-to-htm-lite'', tagString = js ''html'',
       tagImport = ImportFalse, terse = False\<rparr>
     \<lparr>path_node = \<lparr>node_start = 20, node_end = 35,
         closing_name = JSXMemberExpression (JSXIdentifier (js ''Ctx'')) (js ''Provider'')\<rparr>,
      parentPath_parent = Some JSXElement\<rparr>
   = [ReplaceWithString (20, 35) (js ''</${undefined}>'')]"
  by (simp add: visitor_defs js_def)

section \<open>The import statement\<close>

lemma traverse_append:
  "traverse pl f (vs @ ws) st =
     (case traverse pl f vs st of
        (st', es) \<Rightarrow> (case traverse pl f ws st' of (st'', es') \<Rightarrow> (st'', es @ es')))"
  by (induction vs arbitrary: st) (auto split: prod.splits)

lemma traverse_jsx:
  "jsx (fst (traverse pl f vs st)) \<longleftrightarrow> jsx st \<or> list_ex is_opening_element vs"
proof (induction vs arbitrary: st)
  case Nil
  then show ?case by simp
next
  case (Cons v vs)
  have step: "jsx (fst (visit_node pl f v st)) \<longleftrightarrow> jsx st \<or> is_opening_element v"
    by (cases v) (simp_all add: JSXOpeningElement_def Let_def)
  obtain st' es where v: "visit_node pl f v st = (st', es)"
    by (cases "visit_node pl f v st")
  obtain st'' es' where vs: "traverse pl f vs st' = (st'', es')"
    by (cases "traverse pl f vs st'")
  from Cons [of st'] vs have "jsx st'' \<longleftrightarrow> jsx st' \<or> list_ex is_opening_element vs"
    by simp
  with step v vs show ?case by auto
qed

text \<open>
  C4. A file whose only JSX is the root fragment \<open><>a</>\<close>, with the import option set
  to a module: the fragment's tags are replaced by the template's delimiters, the flag
  is not set by the fragment handlers, and no import statement is among the edits.
\<close>

theorem fragment_only_file_gets_no_import:
  "transform \<lparr>opt_tag = None, opt_terse = False, opt_import = ImportModule (js ''htm/preact'')\<rparr>
     \<lparr>original = js ''<>a</>'', comments = []\<rparr>
     [Visit_JSXOpeningFragment
        \<lparr>path_node = \<lparr>node_start = 0, node_end = 2\<rparr>, parentPath_parent = Some OtherNode\<rparr>,
      Visit_JSXText
        \<lparr>path_node = \<lparr>node_start = 2, node_end = 3, text_value = js ''a''\<rparr>,
         parentPath_parent = Some OtherNode\<rparr>,
      Visit_JSXClosingFragment
        \<lparr>path_node = \<lparr>node_start = 3, node_end = 6\<rparr>, parentPath_parent = Some OtherNode\<rparr>]
   = Returns [ReplaceWithString (0, 2) (js ''html'' @ [BACKTICK]),
              ReplaceWithString (2, 3) (js ''a''),
              ReplaceWithString (3, 6) [BACKTICK]]"
  by (simp add: visitor_defs js_def)

section \<open>Options that name no module\<close>

text \<open>
  C7, as amended. The transform checks no option: for every value of the options it
  returns the edits and never throws. When the import option is an object without a
  module and an opening element is visited, the last edit prepends an import statement
  whose module is the text \<open>undefined\<close>.
\<close>

theorem no_configuration_check:
  "(\<exists>es. transform options f visits = Returns es) \<and>
   (opt_import options = ImportObject None e \<and> list_ex is_opening_element visits \<longrightarrow>
      (\<exists>es imp. transform options f visits =
         Returns (es @ [BodyPrependString
           (js ''import { '' @ imp @ js '' } from '' @ [39] @ js ''undefined'' @ [39] @
            js '';\<newline>'')])))"
proof
  show "\<exists>es. transform options f visits = Returns es"
    by (simp add: transform_def transformJsxToHtmLite_def split: prod.splits)
next
  show "opt_import options = ImportObject None e \<and> list_ex is_opening_element visits \<longrightarrow>
      (\<exists>es imp. transform options f visits =
         Returns (es @ [BodyPrependString
           (js ''import { '' @ imp @ js '' } from '' @ [39] @ js ''undefined'' @ [39] @
            js '';\<newline>'')]))"
  proof
    assume a: "opt_import options = ImportObject None e \<and> list_ex is_opening_element visits"
    obtain pl where pl: "transformJsxToHtmLite options = Returns pl"
      and imp: "tagImport pl = ImportObject None e"
      using a by (simp add: transformJsxToHtmLite_def)
    obtain st es where t: "traverse pl f visits \<lparr>jsx = False\<rparr> = (st, es)"
      by (cases "traverse pl f visits \<lparr>jsx = False\<rparr>")
    have "jsx st"
      using traverse_jsx [of pl f visits "\<lparr>jsx = False\<rparr>"] t a by simp
    then have "\<exists>imp. Program_exit pl st = [BodyPrependString
           (js ''import { '' @ imp @ js '' } from '' @ [39] @ js ''undefined'' @ [39] @
            js '';\<newline>'')]"
      using imp by (simp add: Program_exit_def Let_def)
    then show "\<exists>es imp. transform options f visits =
         Returns (es @ [BodyPrependString
           (js ''import { '' @ imp @ js '' } from '' @ [39] @ js ''undefined'' @ [39] @
            js '';\<newline>'')])"
      using pl t by (auto simp: transform_def)
  qed
qed

theorem no_configuration_check_witness:
  "opt_import \<lparr>opt_tag = None, opt_terse = False, opt_import = ImportObject None None\<rparr>
     = ImportObject None None
   \<and> list_ex is_opening_element
       (element_tags (Some OtherNode)
          \<lparr>node_start = 0, node_end = 4,
           name = \<lparr>node_start = 1, node_end = 2, name_node = JSXIdentifier (js ''a'')\<rparr>,
           attributes = [], selfClosing = True\<rparr>
          None)
   \<and> (\<exists>es imp.
        transform \<lparr>opt_tag = None, opt_terse = False, opt_import = ImportObject None None\<rparr>
          \<lparr>original = js ''<a/>'', comments = []\<rparr>
          (element_tags (Some OtherNode)
             \<lparr>node_start = 0, node_end = 4,
              name = \<lparr>node_start = 1, node_end = 2, name_node = JSXIdentifier (js ''a'')\<rparr>,
              attributes = [], selfClosing = True\<rparr>
             None)
        = Returns (es @ [BodyPrependString
            (js ''import { '' @ imp @ js '' } from '' @ [39] @ js ''undefined'' @ [39] @
             js '';\<newline>'')]))"
  using no_configuration_check
    [of "\<lparr>opt_tag = None, opt_terse = False, opt_import = ImportObject None None\<rparr>"
        "\<lparr>original = js ''<a/>'', comments = []\<rparr>"
        "element_tags (Some OtherNode)
           \<lparr>node_start = 0, node_end = 4,
            name = \<lparr>node_start = 1, node_end = 2, name_node = JSXIdentifier (js ''a'')\<rparr>,
            attributes = [], selfClosing = True\<rparr>
           None"
        None]
  by (simp add: element_tags_def)

text \<open>
  C7 as stated fails: with the import option an object that has no module, the
  transform of \<open><a/>\<close> does not throw. It returns the edits, the import of
  \<open>undefined\<close> among them.
\<close>

theorem missing_module_not_rejected:
  "transform \<lparr>opt_tag = None, opt_terse = False, opt_import = ImportObject None None\<rparr>
     \<lparr>original = js ''<a/>'', comments = []\<rparr>
     (element_tags (Some OtherNode)
        \<lparr>node_start = 0, node_end = 4,
         name = \<lparr>node_start = 1, node_end = 2, name_node = JSXIdentifier (js ''a'')\<rparr>,
         attributes = [], selfClosing = True\<rparr>
        None)
   = Returns [PrependString (0, 4) (js ''html'' @ [BACKTICK]),
              AppendString (0, 4) [BACKTICK],
              BodyPrependString
                (js ''import { html } from '' @ [39] @ js ''undefined'' @ [39] @ js '';\<newline>'')] \<and>
   (\<forall>err.
      transform \<lparr>opt_tag = None, opt_terse = False, opt_import = ImportObject None None\<rparr>
        \<lparr>original = js ''<a/>'', comments = []\<rparr>
        (element_tags (Some OtherNode)
           \<lparr>node_start = 0, node_end = 4,
            name = \<lparr>node_start = 1, node_end = 2, name_node = JSXIdentifier (js ''a'')\<rparr>,
            attributes = [], selfClosing = True\<rparr>
           None)
      \<noteq> Throws err)"
  by (simp add: visitor_defs element_tags_def js_def)

section \<open>The invariant of the scanner\<close>

lemma spans_ok_mono:
  "spans_ok code start bound out \<Longrightarrow> bound \<le> bound' \<Longrightarrow> spans_ok code start bound' out"
  unfolding spans_ok_def by (meson order_trans)

lemma spans_ok_snoc:
  assumes "spans_ok code start bound out" and "bound < e" and "start \<le> s" and "s < e"
    and "terminated code (s, e)"
  shows "spans_ok code start e (out @ [(s, e)])"
proof -
  from assms(1) have a: "\<forall>sp \<in> set out. start \<le> fst sp \<and> fst sp < snd sp \<and>
      snd sp \<le> bound \<and> terminated code sp"
    and b: "sorted_wrt (<) (map snd out)"
    by (simp_all add: spans_ok_def)
  from a assms(2) have c: "\<forall>sp \<in> set out. snd sp < e \<and> snd sp \<le> e"
    by fastforce
  show ?thesis
    unfolding spans_ok_def using a b c assms(3-5)
    by (auto simp: sorted_wrt_append)
qed

lemma single_start_bounds:
  "start \<le> ls \<Longrightarrow> start \<le> cs \<Longrightarrow>
   start \<le> single_start code ls cs \<and> single_start code ls cs \<le> cs"
  by (simp add: single_start_def)

lemma multi_start_bounds:
  "start \<le> ls \<Longrightarrow> start \<le> cs \<Longrightarrow>
   start \<le> multi_start code ls cs \<and> multi_start code ls cs \<le> cs"
  by (simp add: multi_start_def)

lemma multi_end_cases:
  "charAt code (i + 1) = Some SLASH \<Longrightarrow> code ! i = STAR \<Longrightarrow>
   i + 2 \<le> multi_end code i \<and> terminated code (s, multi_end code i)"
  by (auto simp: multi_end_def charAt_def terminated_def split: if_splits)

lemma loop_body_Break: "loop_body code st = Break st' \<Longrightarrow> st' = st \<and> st_type st = NONE"
  by (cases "st_type st") (auto simp: loop_body_def split: if_splits)

lemma loop_body_inv:
  assumes "scan_inv code start st" and "st_i st < length code"
    and "loop_body code st = Next st'"
  shows "scan_inv code start (st'\<lparr>st_i := st_i st' + 1\<rparr>)"
proof (cases "st_type st")
  case NONE
  with assms(1) have o: "spans_ok code start (st_i st) (st_out st)"
    and b: "start \<le> st_i st" "start \<le> st_lineStart st"
    by (simp_all add: scan_inv_def)
  from spans_ok_mono [OF o] have o': "spans_ok code start (Suc (st_i st)) (st_out st)"
    by simp
  from NONE assms(2,3) b o o' show ?thesis
    by (auto simp: loop_body_def scan_inv_def charAt_def split: if_splits)
next
  case SINGLE
  with assms(1) have b: "start \<le> st_lineStart st" "start \<le> st_commentStart st"
    "st_commentStart st < st_i st" "start \<le> st_i st"
    "st_commentStart st < length code" "code ! st_commentStart st = SLASH"
    "charAt code (st_commentStart st + 1) = Some (if st_type st = SINGLE then SLASH else STAR)"
    and o: "spans_ok code start (st_commentStart st) (st_out st)"
    by (simp_all add: scan_inv_def)
  show ?thesis
  proof (cases "code ! st_i st = LF \<or> code ! st_i st = CR")
    case False
    with SINGLE assms(3) b o show ?thesis
      by (auto simp: loop_body_def scan_inv_def)
  next
    case True
    from single_start_bounds [OF b(1,2), of code]
    have s: "start \<le> single_start code (st_lineStart st) (st_commentStart st)"
      "single_start code (st_lineStart st) (st_commentStart st) \<le> st_commentStart st"
      by simp_all
    have t: "terminated code (x, st_i st + 1)" for x
      using True assms(2) by (auto simp: terminated_def)
    from True SINGLE assms(3) have st': "st' = \<lparr>st_i = st_i st + 1, st_type = NONE,
             st_commentStart = single_start code (st_lineStart st) (st_commentStart st),
             st_lineStart = st_i st,
             st_out = st_out st @
               [(single_start code (st_lineStart st) (st_commentStart st), st_i st + 1)]\<rparr>"
      by (auto simp: loop_body_def)
    have "spans_ok code start (st_i st + 1) (st_out st @
        [(single_start code (st_lineStart st) (st_commentStart st), st_i st + 1)])"
      using b s by (intro spans_ok_snoc [OF o] t) simp_all
    then have "spans_ok code start (st_i st + 1 + 1) (st_out st @
        [(single_start code (st_lineStart st) (st_commentStart st), st_i st + 1)])"
      by (rule spans_ok_mono) simp
    then show ?thesis
      unfolding st' scan_inv_def using b by simp
  qed
next
  case MULTI
  with assms(1) have b: "start \<le> st_lineStart st" "start \<le> st_commentStart st"
    "st_commentStart st < st_i st" "start \<le> st_i st"
    "st_commentStart st < length code" "code ! st_commentStart st = SLASH"
    "charAt code (st_commentStart st + 1) = Some (if st_type st = SINGLE then SLASH else STAR)"
    and o: "spans_ok code start (st_commentStart st) (st_out st)"
    by (simp_all add: scan_inv_def)
  show ?thesis
  proof (cases "code ! st_i st = STAR \<and> charAt code (st_i st + 1) = Some SLASH")
    case False
    with MULTI assms(3) b o show ?thesis
      by (auto simp: loop_body_def scan_inv_def)
  next
    case True
    from multi_start_bounds [OF b(1,2), of code]
    have s: "start \<le> multi_start code (st_lineStart st) (st_commentStart st)"
      "multi_start code (st_lineStart st) (st_commentStart st) \<le> st_commentStart st"
      by simp_all
    have t: "st_i st + 2 \<le> multi_end code (st_i st)"
      "terminated code (x, multi_end code (st_i st))" for x
      using True multi_end_cases [of code "st_i st"] by simp_all
    from True MULTI assms(3) have st': "st' = \<lparr>st_i = multi_end code (st_i st), st_type = NONE,
             st_commentStart = multi_start code (st_lineStart st) (st_commentStart st),
             st_lineStart = st_lineStart st,
             st_out = st_out st @
               [(multi_start code (st_lineStart st) (st_commentStart st),
                 multi_end code (st_i st))]\<rparr>"
      by (auto simp: loop_body_def)
    have "spans_ok code start (multi_end code (st_i st)) (st_out st @
        [(multi_start code (st_lineStart st) (st_commentStart st), multi_end code (st_i st))])"
      using b s t(1) by (intro spans_ok_snoc [OF o] t(2)) simp_all
    then have "spans_ok code start (multi_end code (st_i st) + 1) (st_out st @
        [(multi_start code (st_lineStart st) (st_commentStart st), multi_end code (st_i st))])"
      by (rule spans_ok_mono) simp
    then show ?thesis
      unfolding st' scan_inv_def using b t(1) by simp
  qed
qed

lemma scan_loop_inv:
  "scan_inv code start st \<Longrightarrow> scan_inv code start (scan_loop code st)"
proof (induction code st rule: scan_loop.induct)
  case (1 code st)
  show ?case
  proof (cases "st_i st < length code")
    case False
    with "1.prems" show ?thesis by (simp add: scan_loop.simps)
  next
    case True
    show ?thesis
    proof (cases "loop_body code st")
      case (Break st')
      with True "1.prems" loop_body_Break [OF Break] show ?thesis
        by (simp add: scan_loop.simps)
    next
      case (Next st')
      from loop_body_inv [OF "1.prems" True Next]
      have "scan_inv code start (scan_loop code (st'\<lparr>st_i := st_i st' + 1\<rparr>))"
        by (rule "1.IH" [OF True Next])
      with True Next show ?thesis by (simp add: scan_loop.simps)
    qed
  qed
qed

lemma scan_loop_left:
  "st_type (scan_loop code st) \<noteq> NONE \<Longrightarrow> length code \<le> st_i (scan_loop code st)"
proof (induction code st rule: scan_loop.induct)
  case (1 code st)
  show ?case
  proof (cases "st_i st < length code")
    case False
    then show ?thesis by (simp add: scan_loop.simps)
  next
    case True
    show ?thesis
    proof (cases "loop_body code st")
      case (Break st')
      with True "1.prems" loop_body_Break [OF Break] show ?thesis
        by (simp add: scan_loop.simps)
    next
      case (Next st')
      with True "1.prems" "1.IH" [OF True Next] show ?thesis
        by (simp add: scan_loop.simps)
    qed
  qed
qed


lemma scan_end_inv: "scan_inv code start (scan_end code start)"
  unfolding scan_end_def
  by (rule scan_loop_inv) (simp add: scan_inv_def spans_ok_def)

lemma spans_ok_final:
  "\<exists>bound. spans_ok code start bound (parseMaybeComments code start)"
  using scan_end_inv [of code start]
  by (auto simp: scan_inv_def parseMaybeComments_def split: if_splits)

section \<open>Unterminated comments\<close>

text \<open>
  C8. When the loop is left inside a line comment or a block comment, the whole input
  has been read, \<open>commentStart\<close> is the offset of the \<open>//\<close> or \<open>/*\<close> that opened the
  comment, and every span of the returned list ends at or before that offset, at a
  place where a comment is closed: the open comment has no span. The scanner is a
  total function: it returns the list and raises nothing.
\<close>

theorem unterminated_comment_dropped:
  assumes "st_type (scan_end code start) \<noteq> NONE"
  shows "length code \<le> st_i (scan_end code start) \<and>
     st_commentStart (scan_end code start) < length code \<and>
     code ! st_commentStart (scan_end code start) = SLASH \<and>
     charAt code (st_commentStart (scan_end code start) + 1) =
       Some (if st_type (scan_end code start) = SINGLE then SLASH else STAR) \<and>
     (\<forall>sp \<in> set (parseMaybeComments code start).
        snd sp \<le> st_commentStart (scan_end code start) \<and> terminated code sp)"
proof -
  from assms have "length code \<le> st_i (scan_end code start)"
    unfolding scan_end_def by (rule scan_loop_left)
  moreover from assms scan_end_inv [of code start]
  have "st_commentStart (scan_end code start) < length code"
    "code ! st_commentStart (scan_end code start) = SLASH"
    "charAt code (st_commentStart (scan_end code start) + 1) =
       Some (if st_type (scan_end code start) = SINGLE then SLASH else STAR)"
    "spans_ok code start (st_commentStart (scan_end code start))
       (parseMaybeComments code start)"
    by (simp_all add: scan_inv_def parseMaybeComments_def)
  ultimately show ?thesis
    by (simp add: spans_ok_def)
qed

theorem unterminated_comment_dropped_witness:
  "st_type (scan_end (js ''//a\<newline> /*b'') 0) \<noteq> NONE \<and>
   parseMaybeComments (js ''//a\<newline> /*b'') 0 = [(0, 4)] \<and>
   st_commentStart (scan_end (js ''//a\<newline> /*b'') 0) = 5 \<and>
   length (js ''//a\<newline> /*b'') \<le> st_i (scan_end (js ''//a\<newline> /*b'') 0)"
proof -
  have h: "st_type (scan_end (js ''//a\<newline> /*b'') 0) \<noteq> NONE"
    by (simp add: scanner_defs)
  show ?thesis
    using h unterminated_comment_dropped [OF h] by (simp add: scanner_defs)
qed

section \<open>The shape of the returned list\<close>

text \<open>
  C10, as amended. Each span of the returned list starts at or after \<open>start\<close>, is not
  empty and ends within the text, and the ends increase strictly along the list.
\<close>

theorem spans_bounded_ends_increasing:
  "(\<forall>sp \<in> set (parseMaybeComments code start).
      start \<le> fst sp \<and> fst sp < snd sp \<and> snd sp \<le> length code) \<and>
   sorted_wrt (<) (map snd (parseMaybeComments code start))"
proof -
  from spans_ok_final obtain bound
    where "spans_ok code start bound (parseMaybeComments code start)" ..
  then show ?thesis
    by (simp add: spans_ok_def terminated_def)
qed

theorem spans_bounded_ends_increasing_witness:
  "parseMaybeComments (js ''<div a=\"1\" /*x*/\<newline> //c\<newline> b=\"2\"/>'') 10
     = [(11, 17), (11, 22)] \<and>
   list_all (\<lambda>sp. 10 \<le> fst sp \<and> fst sp < snd sp \<and>
       snd sp \<le> length (js ''<div a=\"1\" /*x*/\<newline> //c\<newline> b=\"2\"/>''))
     (parseMaybeComments (js ''<div a=\"1\" /*x*/\<newline> //c\<newline> b=\"2\"/>'') 10) \<and>
   sorted_wrt (<)
     (map snd (parseMaybeComments (js ''<div a=\"1\" /*x*/\<newline> //c\<newline> b=\"2\"/>'') 10))"
  using spans_bounded_ends_increasing
    [of "js ''<div a=\"1\" /*x*/\<newline> //c\<newline> b=\"2\"/>''" 10]
  by (simp add: scanner_defs)

text \<open>
  C10 as stated fails: the starts need not increase and the spans can overlap. Scanned
  from the end of the attribute \<open>a="1"\<close>, the block comment gets the span from 11 to
  17, which takes in the line feed after it without moving \<open>lineStart\<close>; the line
  comment on the next line is then pulled back to \<open>lineStart + 1\<close>, which is 11 again.
\<close>

theorem spans_can_overlap:
  "parseMaybeComments (js ''<div a=\"1\" /*x*/\<newline> //c\<newline> b=\"2\"/>'') 10
     = [(11, 17), (11, 22)] \<and>
   \<not> sorted_wrt (\<lambda>a b. fst a < fst b \<and> snd a \<le> fst b)
     (parseMaybeComments (js ''<div a=\"1\" /*x*/\<newline> //c\<newline> b=\"2\"/>'') 10)"
  by (simp add: scanner_defs)

section \<open>A line comment on a line of its own\<close>

lemma scan_loop_Next:
  "st_i st < length code \<Longrightarrow> loop_body code st = Next st' \<Longrightarrow>
   scan_loop code st = scan_loop code (st'\<lparr>st_i := st_i st' + 1\<rparr>)"
  by (simp add: scan_loop.simps)

lemma is_space_not_SLASH: "is_space c \<Longrightarrow> c \<noteq> SLASH"
  by (auto simp: is_space_def SLASH_def)

lemma skip_space:
  assumes "\<forall>c \<in> set ws. is_space c \<and> c \<noteq> LF"
    and "st_type st = NONE" and "st_i st = length pre" and "code = pre @ ws @ rest"
  shows "scan_loop code st =
     scan_loop code (st\<lparr>st_commentStart := st_commentStart st + length ws,
                         st_i := length pre + length ws\<rparr>)"
  using assms
proof (induction ws arbitrary: pre st)
  case Nil
  then show ?case by (cases st) simp
next
  case (Cons c ws)
  from Cons.prems have c: "is_space c" "c \<noteq> LF" "c \<noteq> SLASH"
    by (simp_all add: is_space_not_SLASH)
  from Cons.prems have at: "st_i st < length code" "code ! st_i st = c"
    by simp_all
  from at c Cons.prems(2)
  have body: "loop_body code st = Next (st\<lparr>st_commentStart := st_commentStart st + 1\<rparr>)"
    by (simp add: loop_body_def)
  let ?st = "st\<lparr>st_commentStart := st_commentStart st + 1, st_i := st_i st + 1\<rparr>"
  have "scan_loop code st = scan_loop code ?st"
    using scan_loop_Next [OF at(1) body] by simp
  also have "scan_loop code ?st =
     scan_loop code (?st\<lparr>st_commentStart := st_commentStart ?st + length ws,
                          st_i := length (pre @ [c]) + length ws\<rparr>)"
    using Cons.prems by (intro Cons.IH) simp_all
  finally show ?case by simp
qed

lemma skip_body:
  assumes "\<forall>c \<in> set body. c \<noteq> LF \<and> c \<noteq> CR"
    and "st_type st = SINGLE" and "st_i st = length pre" and "code = pre @ body @ rest"
  shows "scan_loop code st = scan_loop code (st\<lparr>st_i := length pre + length body\<rparr>)"
  using assms
proof (induction body arbitrary: pre st)
  case Nil
  then show ?case by (cases st) simp
next
  case (Cons c body)
  from Cons.prems have c: "c \<noteq> LF" "c \<noteq> CR"
    by simp_all
  from Cons.prems have at: "st_i st < length code" "code ! st_i st = c"
    by simp_all
  from at c Cons.prems(2) have body: "loop_body code st = Next st"
    by (simp add: loop_body_def)
  let ?st = "st\<lparr>st_i := st_i st + 1\<rparr>"
  have "scan_loop code st = scan_loop code ?st"
    using scan_loop_Next [OF at(1) body] by simp
  also have "scan_loop code ?st = scan_loop code (?st\<lparr>st_i := length (pre @ [c]) + length body\<rparr>)"
    using Cons.prems by (intro Cons.IH) simp_all
  finally show ?case by simp
qed

lemma loop_body_out:
  "loop_body code st = Next st' \<Longrightarrow> \<exists>more. st_out st' = st_out st @ more"
  by (auto simp: loop_body_def split: if_splits)

lemma scan_loop_out: "\<exists>more. st_out (scan_loop code st) = st_out st @ more"
proof (induction code st rule: scan_loop.induct)
  case (1 code st)
  show ?case
  proof (cases "st_i st < length code")
    case False
    then show ?thesis by (simp add: scan_loop.simps)
  next
    case True
    show ?thesis
    proof (cases "loop_body code st")
      case (Break st')
      with True loop_body_Break [OF Break] show ?thesis
        by (simp add: scan_loop.simps)
    next
      case (Next st')
      from loop_body_out [OF Next] obtain m where m: "st_out st' = st_out st @ m" ..
      from "1.IH" [OF True Next] obtain m'
        where "st_out (scan_loop code (st'\<lparr>st_i := st_i st' + 1\<rparr>)) = st_out st' @ m'"
        by auto
      with m True Next show ?thesis
        by (simp add: scan_loop.simps)
    qed
  qed
qed

lemma scan_comment_line:
  assumes code: "code = pre @ ws @ LF # indent @ SLASH # SLASH # body @ LF # rest"
    and ws: "\<forall>c \<in> set (ws @ indent). is_space c \<and> c \<noteq> LF"
    and body: "\<forall>c \<in> set body. c \<noteq> LF \<and> c \<noteq> CR"
    and st: "st_type st = NONE" "st_i st = length pre"
  shows "\<exists>more. st_out (scan_loop code st) =
     st_out st @ (length pre + length ws + 1,
                  length pre + length ws + length indent + length body + 4) # more"
proof -
  let ?p1 = "length pre + length ws"
  let ?p2 = "?p1 + 1 + length indent"
  let ?p3 = "?p2 + 2 + length body"
  \<comment> \<open>the white space after the attribute\<close>
  let ?s1 = "st\<lparr>st_commentStart := st_commentStart st + length ws, st_i := ?p1\<rparr>"
  have 1: "scan_loop code st = scan_loop code ?s1"
    using skip_space [of ws st pre code "LF # indent @ SLASH # SLASH # body @ LF # rest"]
      ws st code by simp
  \<comment> \<open>the line feed\<close>
  have at1: "st_i ?s1 < length code" "code ! st_i ?s1 = LF"
    using code by (simp_all add: nth_append)
  have "loop_body code ?s1 = Next (?s1\<lparr>st_lineStart := ?p1\<rparr>)"
    using at1 st by (simp add: loop_body_def LF_def SLASH_def)
  from scan_loop_Next [OF at1(1) this]
  have 2: "scan_loop code ?s1 = scan_loop code (?s1\<lparr>st_lineStart := ?p1, st_i := ?p1 + 1\<rparr>)"
    by simp
  \<comment> \<open>the indentation\<close>
  let ?s2 = "?s1\<lparr>st_lineStart := ?p1, st_i := ?p1 + 1\<rparr>"
  let ?s3 = "?s2\<lparr>st_commentStart := st_commentStart ?s2 + length indent, st_i := ?p2\<rparr>"
  have 3: "scan_loop code ?s2 = scan_loop code ?s3"
    using skip_space [of indent ?s2 "pre @ ws @ [LF]" code "SLASH # SLASH # body @ LF # rest"]
      ws st code by simp
  \<comment> \<open>the two slashes\<close>
  have at3: "st_i ?s3 < length code" "code ! st_i ?s3 = SLASH"
    "charAt code (st_i ?s3 + 1) = Some SLASH"
    using code by (simp_all add: nth_append charAt_def)
  have "loop_body code ?s3 =
     Next (?s3\<lparr>st_type := SINGLE, st_commentStart := ?p2, st_i := ?p2 + 1\<rparr>)"
    using at3 st by (simp add: loop_body_def)
  from scan_loop_Next [OF at3(1) this]
  have 4: "scan_loop code ?s3 =
     scan_loop code (?s3\<lparr>st_type := SINGLE, st_commentStart := ?p2, st_i := ?p2 + 2\<rparr>)"
    by simp
  \<comment> \<open>the text of the comment\<close>
  let ?s4 = "?s3\<lparr>st_type := SINGLE, st_commentStart := ?p2, st_i := ?p2 + 2\<rparr>"
  let ?s5 = "?s4\<lparr>st_i := ?p3\<rparr>"
  have 5: "scan_loop code ?s4 = scan_loop code ?s5"
    using skip_body [OF body, of ?s4 "pre @ ws @ LF # indent @ [SLASH, SLASH]" code "LF # rest"]
      code by (simp add: add.assoc)
  \<comment> \<open>the line feed that ends the comment\<close>
  have at5: "st_i ?s5 < length code" "code ! st_i ?s5 = LF"
    using code by (simp_all add: nth_append)
  have "slice code ?p1 ?p2 = LF # indent"
    using code by (simp add: slice_def)
  then have start: "single_start code ?p1 ?p2 = ?p1 + 1"
    by (simp add: single_start_def match_leading_space_def is_space_def LF_def)
  let ?s6 = "\<lparr>st_i = ?p3 + 1, st_type = NONE, st_commentStart = ?p1 + 1, st_lineStart = ?p3,
      st_out = st_out st @ [(?p1 + 1, ?p3 + 1)]\<rparr>"
  have "loop_body code ?s5 = Next ?s6"
    using at5 start by (simp add: loop_body_def)
  from scan_loop_Next [OF at5(1) this]
  have 6: "scan_loop code ?s5 = scan_loop code (?s6\<lparr>st_i := ?p3 + 2\<rparr>)"
    by simp
  from scan_loop_out [of code "?s6\<lparr>st_i := ?p3 + 2\<rparr>"] obtain more
    where "st_out (scan_loop code (?s6\<lparr>st_i := ?p3 + 2\<rparr>)) =
      st_out st @ [(?p1 + 1, ?p3 + 1)] @ more"
    by auto
  with 1 2 3 4 5 6 have "st_out (scan_loop code st) = st_out st @ (?p1 + 1, ?p3 + 1) # more"
    by simp
  then show ?thesis
    by (auto simp: add.assoc)
qed

lemma remove_between_has:
  "j \<in> set (i # map node_end attrs) \<Longrightarrow>
   set (remove_comments code j) \<subseteq> set (remove_between code i attrs)"
  by (induction attrs arbitrary: i) auto

text \<open>
  The removal is issued as the rule intends. When the text has, after the name or an
  attribute of an opening element that has attributes, white space up to a line feed,
  and then a line that holds only indentation and a line comment and ends with a line
  feed, the handler removes the span from just after the first line feed to just
  after the second: the indentation, the comment and its line feed.
\<close>

lemma comment_line_span_removed:
  assumes "original f = pre @ ws @ LF # indent @ SLASH # SLASH # body @ LF # rest"
    and "\<forall>c \<in> set (ws @ indent). is_space c \<and> c \<noteq> LF"
    and "\<forall>c \<in> set body. c \<noteq> LF \<and> c \<noteq> CR"
    and "attributes (path_node p) \<noteq> []"
    and "length pre \<in>
      set (node_end (name (path_node p)) # map node_end (attributes (path_node p)))"
  shows "Remove (int (length pre + length ws + 1))
           (int (length pre + length ws + length indent + length body + 4))
         \<in> set (snd (JSXOpeningElement pl f p st))"
proof -
  let ?a = "length pre + length ws + 1"
  let ?b = "length pre + length ws + length indent + length body + 4"
  from scan_comment_line [OF assms(1-3), of
      "\<lparr>st_i = length pre, st_type = NONE, st_commentStart = 0, st_lineStart = length pre,
        st_out = []\<rparr>"]
  obtain more where "parseMaybeComments (original f) (length pre) = (?a, ?b) # more"
    by (auto simp: parseMaybeComments_def scan_end_def)
  then have "Remove (int ?a) (int ?b) \<in> set (remove_comments (original f) (length pre))"
    by (simp add: remove_comments_def)
  with remove_between_has [OF assms(5), of "original f"]
  have "Remove (int ?a) (int ?b) \<in> set (remove_between (original f)
      (node_end (name (path_node p))) (attributes (path_node p)))"
    by blast
  with assms(4) show ?thesis
    by (simp add: JSXOpeningElement_def Let_def)
qed

text \<open>
  C3. The input is \<open><div\<close>, line feed, two blanks, \<open>// comment\<close>, line feed, two
  blanks, \<open>id="foo"\<close>, line feed, \<open>/>\<close>; the parser lists the comment, from offset 7
  to 17, among the comments of the file. The handler of the opening element removes
  the comment's line, offsets 5 to 18. In the same call, lines 115 to 130 take the
  same comment for a comment to turn into an HTML comment, since it lies after the name
  and in no attribute: they overwrite offsets 7 to 9 with \<open><!--\<close> and insert \<open>-->\<close>
  at offset 17, both inside the span just removed. The comment line is not simply
  removed, as the claim and the result given in the comment of lines 72 to 85 have it:
  the markers of an HTML comment are written in its place.
\<close>

theorem removed_comment_line_rewritten_as_html:
  "snd (JSXOpeningElement
      \<lparr>plugin_name = js ''transform-jsx-to-htm-lite'', tagString = js ''html'',
       tagImport = ImportFalse, terse = False\<rparr>
      \<lparr>original = js ''<div\<newline>  // comment\<newline>  id=\"foo\"\<newline>/>'',
       comments = [\<lparr>node_start = 7, node_end = 17, comment_type = Line\<rparr>]\<rparr>
      \<lparr>path_node = \<lparr>node_start = 0, node_end = 31,
         name = \<lparr>node_start = 1, node_end = 4, name_node = JSXIdentifier (js ''div'')\<rparr>,
         attributes = [\<lparr>node_start = 20, node_end = 28\<rparr>], selfClosing = True\<rparr>,
       parentPath_parent = Some OtherNode\<rparr>
      \<lparr>jsx = False\<rparr>)
   = [Remove 5 18,
      PrependString (0, 31) (js ''html'' @ [BACKTICK]),
      AppendString (0, 31) [BACKTICK],
      Overwrite 7 9 (js ''<!--''),
      AppendRight 17 (js ''-->'')]"
  by (simp add: scanner_defs visitor_defs)

section \<open>Text outside the JSX\<close>

text \<open>
  C9. The file is the self-closing root element \<open><a b="c" / /*x*/>\<close>, from offset 0 to
  17, followed by a blank, a line comment of the program and a line feed. The scan
  after the attribute pushes the block comment's span, sets \<open>i\<close> to its end at 16, and
  the loop's increment skips the \<open>>\<close> there; the scan goes on behind the element and
  pushes a span for the program's comment, pulled back to offset 9. The handler
  removes from 9 to 22: the text from 17 to 22 is in no JSX node.
\<close>

theorem scan_leaves_the_element:
  "transform \<lparr>opt_tag = None, opt_terse = False, opt_import = ImportFalse\<rparr>
     \<lparr>original = js ''<a b=\"c\" / /*x*/> //t\<newline>'',
      comments = [\<lparr>node_start = 11, node_end = 16, comment_type = Block\<rparr>,
                  \<lparr>node_start = 18, node_end = 21, comment_type = Line\<rparr>]\<rparr>
     (element_tags (Some OtherNode)
        \<lparr>node_start = 0, node_end = 17,
         name = \<lparr>node_start = 1, node_end = 2, name_node = JSXIdentifier (js ''a'')\<rparr>,
         attributes = [\<lparr>node_start = 3, node_end = 8\<rparr>], selfClosing = True\<rparr>
        None)
   = Returns [Remove 11 16, Remove 9 22,
              PrependString (0, 17) (js ''html'' @ [BACKTICK]),
              AppendString (0, 17) [BACKTICK],
              Overwrite 11 13 (js ''<!--''), Overwrite 14 16 (js ''-->'')]"
  by (simp add: scanner_defs visitor_defs element_tags_def)

end
